theory Spec2Isabelle
  imports Main
begin

section \<open>Python strings\<close>

text \<open>
  A Python \<open>str\<close> is a sequence of Unicode code points, and \<open>len\<close> counts code points.
  A character is modelled by its code point, a string by the list of them.
\<close>

type_synonym pychar = nat
type_synonym pystr = "pychar list"

definition ord_str :: "string \<Rightarrow> pystr" where
  "ord_str cs = map of_char cs"

section \<open>The character classes written in the patterns\<close>

definition is_upper :: "pychar \<Rightarrow> bool" where
  \<comment> \<open>the range \<open>A-Z\<close>\<close>
  "is_upper c \<longleftrightarrow> 65 \<le> c \<and> c \<le> 90"

definition is_lower :: "pychar \<Rightarrow> bool" where
  \<comment> \<open>the range \<open>a-z\<close>\<close>
  "is_lower c \<longleftrightarrow> 97 \<le> c \<and> c \<le> 122"

definition is_ascii_digit :: "pychar \<Rightarrow> bool" where
  \<comment> \<open>the range \<open>0-9\<close>\<close>
  "is_ascii_digit c \<longleftrightarrow> 48 \<le> c \<and> c \<le> 57"

definition is_special :: "pychar \<Rightarrow> bool" where
  \<comment> \<open>the class \<open>[#$%!@+=]\<close>, in the order it is written\<close>
  "is_special c \<longleftrightarrow> c = 35 \<or> c = 36 \<or> c = 37 \<or> c = 33 \<or> c = 64 \<or> c = 43 \<or> c = 61"

definition is_allowed :: "pychar \<Rightarrow> bool" where
  \<comment> \<open>the class \<open>[A-Za-z0-9#$%!@+=]\<close>\<close>
  "is_allowed c \<longleftrightarrow> is_upper c \<or> is_lower c \<or> is_ascii_digit c \<or> is_special c"

text \<open>
  For a \<open>str\<close> pattern \<open>\d\<close> matches every Unicode decimal digit, not only \<open>0-9\<close>.
  Which code points beyond ASCII are decimal digits is a table of the interpreter's Unicode
  database; it is the parameter \<open>nd\<close> of the model, consulted only for code points from
  128 on.
\<close>

definition re_digit :: "(pychar \<Rightarrow> bool) \<Rightarrow> pychar \<Rightarrow> bool" where
  "re_digit nd c \<longleftrightarrow> (if c < 128 then is_ascii_digit c else nd c)"

definition re_dot :: "pychar \<Rightarrow> bool" where
  \<comment> \<open>\<open>.\<close> without the DOTALL flag: anything but a newline\<close>
  "re_dot c \<longleftrightarrow> c \<noteq> 10"

section \<open>The fragment of \<open>re\<close> the program uses\<close>

text \<open>
  The patterns of the program are built from character classes, concatenation, the
  greedy repetitions \<open>{m,}\<close> (with \<open>*\<close> as \<open>{0,}\<close>) and \<open>{m}\<close>, the lookahead
  \<open>(?=...)\<close> and the anchors \<open>^\<close> and \<open>$\<close>. Groups, capturing or not, only
  bracket: no pattern refers back to one.
\<close>

datatype re =
    Cls "pychar \<Rightarrow> bool"
  | Seq re re
  | AtLeast nat re
  | Exactly nat re
  | Look re
  | Bol
  | Eol

text \<open>
  A backtracking matcher is described by the ways a pattern can match at a position:
  \<open>ends r s rest\<close> lists, in the order the matcher tries them, what is left of the
  subject \<open>s\<close> after each way of matching \<open>r\<close> where \<open>rest\<close> is still to be read.
\<close>

primrec iter :: "nat \<Rightarrow> (pystr \<Rightarrow> pystr list) \<Rightarrow> pystr \<Rightarrow> pystr list" where
  "iter 0 f rest = [rest]"
| "iter (Suc n) f rest = concat (map (iter n f) (f rest))"

fun star :: "(pystr \<Rightarrow> pystr list) \<Rightarrow> pystr \<Rightarrow> pystr list" where
  "star f rest =
     concat (map (star f) (filter (\<lambda>r. length r < length rest) (f rest))) @ [rest]"

declare star.simps [simp del]

primrec ends :: "re \<Rightarrow> pystr \<Rightarrow> pystr \<Rightarrow> pystr list" where
  "ends (Cls P) s rest = (case rest of [] \<Rightarrow> [] | c # cs \<Rightarrow> if P c then [cs] else [])"
| "ends (Seq a b) s rest = concat (map (ends b s) (ends a s rest))"
| "ends (AtLeast m a) s rest = concat (map (star (ends a s)) (iter m (ends a s) rest))"
| "ends (Exactly m a) s rest = iter m (ends a s) rest"
| "ends (Look a) s rest = (if ends a s rest = [] then [] else [rest])"
| "ends Bol s rest = (if length rest = length s then [rest] else [])"
| "ends Eol s rest = (if rest = [] \<or> rest = [10] then [rest] else [])"

definition re_fullmatch :: "re \<Rightarrow> pystr \<Rightarrow> bool" where
  \<comment> \<open>\<open>re.fullmatch(r, s)\<close> is not \<open>None\<close>: some way of matching at the start reads all of \<open>s\<close>\<close>
  "re_fullmatch r s \<longleftrightarrow> [] \<in> set (ends r s s)"

primrec tails :: "pystr \<Rightarrow> pystr list" where
  "tails [] = [[]]"
| "tails (c # cs) = (c # cs) # tails cs"

definition re_search :: "re \<Rightarrow> pystr \<Rightarrow> bool" where
  \<comment> \<open>\<open>re.search(r, s)\<close> is not \<open>None\<close>: the pattern matches at some position\<close>
  "re_search r s \<longleftrightarrow> list_ex (\<lambda>rest. ends r s rest \<noteq> []) (tails s)"

definition re_findall_cls :: "(pychar \<Rightarrow> bool) \<Rightarrow> pystr \<Rightarrow> pychar list" where
  \<comment> \<open>\<open>re.findall\<close> of a pattern that is one character class: the characters in the class,
      left to right\<close>
  "re_findall_cls P s = filter P s"

section \<open>The module's globals\<close>

text \<open>
  \<open>PASSWORD_REGEX\<close> is the pattern
  \<^verbatim>\<open>^(?=([A-Za-z0-9#$%!@+=]{10,})$)(?=(?:.*[A-Z]){3})(?=(?:.*\d){3})(?=.*[#$%!@+=]).*$\<close>
  compiled once when the module is loaded. It is a module global that
  \<open>validate_password\<close> reads at each call.
\<close>

record globals =
  PASSWORD_REGEX :: re

definition dot_star :: re where
  "dot_star = AtLeast 0 (Cls re_dot)"

definition PASSWORD_REGEX_TEXT :: "(pychar \<Rightarrow> bool) \<Rightarrow> re" where
  "PASSWORD_REGEX_TEXT nd =
     Seq Bol
    (Seq (Look (Seq (AtLeast 10 (Cls is_allowed)) Eol))
    (Seq (Look (Exactly 3 (Seq dot_star (Cls is_upper))))
    (Seq (Look (Exactly 3 (Seq dot_star (Cls (re_digit nd)))))
    (Seq (Look (Seq dot_star (Cls is_special)))
    (Seq dot_star Eol)))))"

definition module_globals :: "(pychar \<Rightarrow> bool) \<Rightarrow> globals" where
  "module_globals nd = \<lparr>PASSWORD_REGEX = PASSWORD_REGEX_TEXT nd\<rparr>"

section \<open>Python objects and the exceptions of the library calls\<close>

text \<open>
  The argument of \<open>validate_password\<close> is any Python object. The model has strings, byte
  strings, integers and \<open>None\<close>. With a \<open>str\<close> pattern the functions of \<open>re\<close> raise
  \<open>TypeError\<close> on anything but a \<open>str\<close>, and \<open>len\<close> raises it on an object without a
  length. A call that raises is the value \<open>Inl\<close> of its exception, and \<open>bind_exn\<close> passes
  the exception of a call on to the caller, as an uncaught exception does.
\<close>

datatype exn = ValueError | TypeError

datatype pyobj = Str pystr | PyBytes "nat list" | PyInt int | PyNone

definition bind_exn :: "exn + 'a \<Rightarrow> ('a \<Rightarrow> exn + 'b) \<Rightarrow> exn + 'b" where
  "bind_exn m f = (case m of Inl e \<Rightarrow> Inl e | Inr a \<Rightarrow> f a)"

definition isinstance_str :: "pyobj \<Rightarrow> bool" where
  "isinstance_str x = (case x of Str s \<Rightarrow> True | _ \<Rightarrow> False)"

definition py_len :: "pyobj \<Rightarrow> exn + nat" where
  "py_len x =
     (case x of Str s \<Rightarrow> Inr (length s) | PyBytes b \<Rightarrow> Inr (length b) | _ \<Rightarrow> Inl TypeError)"

definition obj_fullmatch :: "re \<Rightarrow> pyobj \<Rightarrow> exn + bool" where
  "obj_fullmatch r x = (case x of Str s \<Rightarrow> Inr (re_fullmatch r s) | _ \<Rightarrow> Inl TypeError)"

definition obj_findall_cls :: "(pychar \<Rightarrow> bool) \<Rightarrow> pyobj \<Rightarrow> exn + pychar list" where
  "obj_findall_cls P x = (case x of Str s \<Rightarrow> Inr (re_findall_cls P s) | _ \<Rightarrow> Inl TypeError)"

definition obj_search :: "re \<Rightarrow> pyobj \<Rightarrow> exn + bool" where
  "obj_search r x = (case x of Str s \<Rightarrow> Inr (re_search r s) | _ \<Rightarrow> Inl TypeError)"

section \<open>\<open>validate_password\<close>\<close>

text \<open>
  The messages are the eight string literals of the function, one constructor each:
  \<^item> \<open>Cadena_invalida\<close>: \<^verbatim>\<open>Cadena inv\'alida\<close>
  \<^item> \<open>Largo_o_fuera_del_conjunto\<close>: \<^verbatim>\<open>Largo < 10 o caracteres fuera del conjunto permitido\<close>
  \<^item> \<open>Fuera_del_conjunto\<close>: \<^verbatim>\<open>Caracteres fuera del conjunto permitido\<close>
  \<^item> \<open>Faltan_mayusculas\<close>: \<^verbatim>\<open>Faltan may\'usculas (>=3)\<close>
  \<^item> \<open>Faltan_digitos\<close>: \<^verbatim>\<open>Faltan d\'igitos (>=3)\<close>
  \<^item> \<open>Falta_especial\<close>: \<^verbatim>\<open>Falta car\'acter especial [#$%!@+=]\<close>
  \<^item> \<open>OK\<close>: \<^verbatim>\<open>OK\<close>
  \<^item> \<open>No_cumple\<close>: \<^verbatim>\<open>No cumple la pol\'itica\<close>
\<close>

datatype message =
    Cadena_invalida
  | Largo_o_fuera_del_conjunto
  | Fuera_del_conjunto
  | Faltan_mayusculas
  | Faltan_digitos
  | Falta_especial
  | OK
  | No_cumple

text \<open>
  The function takes the globals it reads and returns them with its result: it assigns
  to none of them. Only its last test reads \<open>PASSWORD_REGEX\<close>.
\<close>

definition validate_password ::
  "(pychar \<Rightarrow> bool) \<Rightarrow> globals \<Rightarrow> pyobj \<Rightarrow> exn + ((bool \<times> message) \<times> globals)" where
  "validate_password nd g pw =
     (if \<not> isinstance_str pw then Inr ((False, Cadena_invalida), g)
      else
        bind_exn (obj_fullmatch (AtLeast 10 (Cls is_allowed)) pw) (\<lambda>m1.
          if \<not> m1 then
            bind_exn (py_len pw) (\<lambda>n.
              if n < 10 then Inr ((False, Largo_o_fuera_del_conjunto), g)
              else Inr ((False, Fuera_del_conjunto), g))
          else
            bind_exn (obj_findall_cls is_upper pw) (\<lambda>us.
              if length us < 3 then Inr ((False, Faltan_mayusculas), g)
              else
                bind_exn (obj_findall_cls (re_digit nd) pw) (\<lambda>ds.
                  if length ds < 3 then Inr ((False, Faltan_digitos), g)
                  else
                    bind_exn (obj_search (Cls is_special) pw) (\<lambda>m2.
                      if \<not> m2 then Inr ((False, Falta_especial), g)
                      else
                        bind_exn (obj_fullmatch (PASSWORD_REGEX g) pw) (\<lambda>ok.
                          if ok then Inr ((True, OK), g)
                          else Inr ((False, No_cumple), g)))))))"

section \<open>\<open>parse_line\<close>\<close>

definition is_space :: "pychar \<Rightarrow> bool" where
  \<comment> \<open>the code points \<open>str.strip()\<close> removes: those for which \<open>str.isspace\<close> holds\<close>
  "is_space c \<longleftrightarrow>
     (9 \<le> c \<and> c \<le> 13) \<or> (28 \<le> c \<and> c \<le> 32) \<or> c = 133 \<or> c = 160 \<or> c = 5760 \<or>
     (8192 \<le> c \<and> c \<le> 8202) \<or> c = 8232 \<or> c = 8233 \<or> c = 8239 \<or> c = 8287 \<or> c = 12288"

definition strip :: "pystr \<Rightarrow> pystr" where
  "strip s = rev (dropWhile is_space (rev (dropWhile is_space s)))"

definition startswith :: "pystr \<Rightarrow> pystr \<Rightarrow> bool" where
  "startswith s p \<longleftrightarrow> take (length p) s = p"

definition split1 :: "pychar \<Rightarrow> pystr \<Rightarrow> pystr list" where
  \<comment> \<open>\<open>s.split(sep, 1)\<close> for a separator of one character: at most one cut, at the
      first occurrence\<close>
  "split1 sep s =
     (if sep \<in> set s
      then [takeWhile (\<lambda>c. c \<noteq> sep) s, tl (dropWhile (\<lambda>c. c \<noteq> sep) s)]
      else [s])"

definition parse_line :: "pystr \<Rightarrow> exn + pystr option" where
  \<comment> \<open>the unpacking \<open>k, v = ...\<close> raises \<open>ValueError\<close> unless the list has two elements\<close>
  "parse_line line0 =
     (let line = strip line0 in
      if line = [] \<or> startswith line (ord_str ''#'') then Inr None
      else if 58 \<in> set line then
        (case split1 58 line of
           [k, v] \<Rightarrow> Inr (Some (strip v))
         | _ \<Rightarrow> Inl ValueError)
      else Inr (Some line))"

section \<open>\<open>load_and_validate\<close>\<close>

text \<open>
  The file is the list of its lines, each with its line break, as iterating over the
  open file yields them. The loop numbers the lines from 1, skips a line for which
  \<open>parse_line\<close> returns \<open>None\<close> and appends a \<open>Result\<close> for every other line.
\<close>

record Result =
  line_no :: nat
  password :: pystr
  valid :: bool
  message :: message

fun load_loop ::
  "(pychar \<Rightarrow> bool) \<Rightarrow> globals \<Rightarrow> nat \<Rightarrow> pystr list \<Rightarrow> Result list \<Rightarrow>
     exn + (Result list \<times> globals)" where
  "load_loop nd g i [] out = Inr (out, g)"
| "load_loop nd g i (raw # f) out =
     bind_exn (parse_line raw) (\<lambda>pw.
       case pw of
         None \<Rightarrow> load_loop nd g (i + 1) f out
       | Some p \<Rightarrow>
           bind_exn (validate_password nd g (Str p)) (\<lambda>(vm, g').
             load_loop nd g' (i + 1) f
               (out @ [\<lparr>line_no = i, password = p, valid = fst vm, message = snd vm\<rparr>])))"

definition load_and_validate ::
  "(pychar \<Rightarrow> bool) \<Rightarrow> globals \<Rightarrow> pystr list \<Rightarrow> exn + (Result list \<times> globals)" where
  "load_and_validate nd g f = load_loop nd g 1 f []"

section \<open>Facts about the matcher\<close>

text \<open>
  The equations of \<open>ends\<close> are applied by hand: as rewrite rules they would also unfold
  the steps handed to \<open>iter\<close> and \<open>star\<close>.
\<close>

declare ends.simps [simp del]

lemma ends_Cls_Nil [simp]: "ends (Cls P) s [] = []"
  by (simp add: ends.simps)

lemma ends_Cls_Cons [simp]: "ends (Cls P) s (c # cs) = (if P c then [cs] else [])"
  by (simp add: ends.simps)

lemma in_concat_map: "x \<in> set xs \<Longrightarrow> y \<in> set (f x) \<Longrightarrow> y \<in> set (concat (map f xs))"
  by auto

lemma concat_map_not_Nil: "x \<in> set xs \<Longrightarrow> f x \<noteq> [] \<Longrightarrow> concat (map f xs) \<noteq> []"
  by auto

lemma not_Nil_if_mem: "x \<in> set xs \<Longrightarrow> xs \<noteq> []"
  by auto

lemma star_Nil: "star f [] = [[]]"
  by (subst star.simps) simp

lemma star_Cls_Cons:
  "star (ends (Cls P) s) (c # cs) = (if P c then star (ends (Cls P) s) cs else []) @ [c # cs]"
  by (subst star.simps) simp

lemma Nil_in_star_Cls: "[] \<in> set (star (ends (Cls P) s) rest) \<longleftrightarrow> list_all P rest"
  by (induction rest) (simp_all add: star_Nil star_Cls_Cons)

lemma iter_Cls:
  "iter m (ends (Cls P) s) rest =
     (if m \<le> length rest \<and> list_all P (take m rest) then [drop m rest] else [])"
proof (induction m arbitrary: rest)
  case 0
  show ?case by simp
next
  case (Suc m)
  show ?case
  proof (cases rest)
    case Nil
    then show ?thesis by simp
  next
    case (Cons c cs)
    then show ?thesis by (cases "P c") (simp_all add: Suc.IH)
  qed
qed

lemma fullmatch_AtLeast_Cls:
  "re_fullmatch (AtLeast m (Cls P)) p \<longleftrightarrow> m \<le> length p \<and> list_all P p"
proof -
  have "list_all P p \<longleftrightarrow> list_all P (take m p) \<and> list_all P (drop m p)"
    by (metis append_take_drop_id list_all_append)
  then show ?thesis
    by (simp add: re_fullmatch_def ends.simps(3) iter_Cls Nil_in_star_Cls)
qed

lemma search_Cls_tails:
  "list_ex (\<lambda>rest. ends (Cls P) s rest \<noteq> []) (tails xs) \<longleftrightarrow> list_ex P xs"
  by (induction xs) simp_all

lemma search_Cls: "re_search (Cls P) s \<longleftrightarrow> list_ex P s"
  by (simp add: re_search_def search_Cls_tails)

lemma self_in_tails: "ys \<in> set (tails ys)"
  by (cases ys) simp_all

lemma suffix_in_tails: "ys \<in> set (tails (xs @ ys))"
  by (induction xs) (simp_all add: self_in_tails)

lemma star_dot: "list_all re_dot rest \<Longrightarrow> set (star (ends (Cls re_dot) s) rest) = set (tails rest)"
  by (induction rest) (auto simp: star_Nil star_Cls_Cons)

lemma ends_dot_star:
  "list_all re_dot rest \<Longrightarrow> set (ends dot_star s rest) = set (tails rest)"
  by (simp add: dot_star_def star_dot ends.simps(3))

lemma ends_dot_star_Cls:
  assumes "list_all re_dot rest" and "rest = pre @ c # cs" and "P c"
  shows "cs \<in> set (ends (Seq dot_star (Cls P)) s rest)"
proof -
  have "c # cs \<in> set (ends dot_star s rest)"
    using assms(1,2) by (simp add: ends_dot_star suffix_in_tails)
  moreover have "cs \<in> set (ends (Cls P) s (c # cs))"
    using assms(3) by simp
  ultimately show ?thesis
    unfolding ends.simps(2) by (rule in_concat_map)
qed

lemma iter_dot_star_Cls:
  "list_all re_dot rest \<Longrightarrow> n \<le> length (filter P rest) \<Longrightarrow>
     iter n (ends (Seq dot_star (Cls P)) s) rest \<noteq> []"
proof (induction n arbitrary: rest)
  case 0
  show ?case by simp
next
  case (Suc n)
  from Suc.prems(2) have "filter P rest \<noteq> []" by auto
  then have "\<exists>x \<in> set rest. P x" by (simp add: filter_empty_conv)
  from split_list_first_prop [OF this]
  obtain pre c cs where split: "rest = pre @ c # cs" "P c" "\<forall>x \<in> set pre. \<not> P x"
    by blast
  have "filter P rest = c # filter P cs"
    using split by simp
  with Suc.prems(2) have len: "n \<le> length (filter P cs)" by simp
  have dots: "list_all re_dot cs" using Suc.prems(1) split(1) by simp
  have "iter n (ends (Seq dot_star (Cls P)) s) cs \<noteq> []"
    using Suc.IH [OF dots len] .
  moreover have "cs \<in> set (ends (Seq dot_star (Cls P)) s rest)"
    using Suc.prems(1) split(1) split(2) by (rule ends_dot_star_Cls)
  ultimately have "concat (map (iter n (ends (Seq dot_star (Cls P)) s))
      (ends (Seq dot_star (Cls P)) s rest)) \<noteq> []"
    by (rule concat_map_not_Nil [rotated])
  then show ?case by simp
qed

lemma allowed_lt_128: "is_allowed c \<Longrightarrow> c < 128"
  by (auto simp: is_allowed_def is_upper_def is_lower_def is_ascii_digit_def is_special_def)

lemma allowed_dot: "is_allowed c \<Longrightarrow> re_dot c"
  by (auto simp: is_allowed_def is_upper_def is_lower_def is_ascii_digit_def is_special_def re_dot_def)

lemma all_allowed_dot: "list_all is_allowed p \<Longrightarrow> list_all re_dot p"
  by (induction p) (simp_all add: allowed_dot)

lemma filter_digit_allowed:
  "list_all is_allowed p \<Longrightarrow> filter (re_digit nd) p = filter is_ascii_digit p"
  by (induction p) (simp_all add: re_digit_def allowed_lt_128)

lemma fullmatch_PASSWORD_REGEX:
  assumes len: "10 \<le> length p" and cs: "list_all is_allowed p"
    and up: "3 \<le> length (filter is_upper p)"
    and dg: "3 \<le> length (filter (re_digit nd) p)"
    and sp: "list_ex is_special p"
  shows "re_fullmatch (PASSWORD_REGEX_TEXT nd) p"
proof -
  have dots: "list_all re_dot p" using cs by (rule all_allowed_dot)
  have l1: "ends (Seq (AtLeast 10 (Cls is_allowed)) Eol) p p \<noteq> []"
  proof -
    have "[] \<in> set (ends (AtLeast 10 (Cls is_allowed)) p p)"
      using fullmatch_AtLeast_Cls [of 10 is_allowed p] len cs by (simp add: re_fullmatch_def)
    moreover have "[] \<in> set (ends Eol p [])" by (simp add: ends.simps)
    ultimately have "[] \<in> set (ends (Seq (AtLeast 10 (Cls is_allowed)) Eol) p p)"
      unfolding ends.simps(2) by (rule in_concat_map)
    then show ?thesis by (rule not_Nil_if_mem)
  qed
  have l2: "ends (Exactly 3 (Seq dot_star (Cls is_upper))) p p \<noteq> []"
    using iter_dot_star_Cls [OF dots up] by (simp add: ends.simps(4))
  have l3: "ends (Exactly 3 (Seq dot_star (Cls (re_digit nd)))) p p \<noteq> []"
    using iter_dot_star_Cls [OF dots dg] by (simp add: ends.simps(4))
  have l4: "ends (Seq dot_star (Cls is_special)) p p \<noteq> []"
  proof -
    from sp obtain pre c cs where "p = pre @ c # cs" "is_special c"
      by (auto simp: list_ex_iff dest: split_list)
    then have "cs \<in> set (ends (Seq dot_star (Cls is_special)) p p)"
      using ends_dot_star_Cls [OF dots] by blast
    then show ?thesis by (rule not_Nil_if_mem)
  qed
  have l5: "[] \<in> set (ends (Seq dot_star Eol) p p)"
  proof -
    have "[] \<in> set (ends dot_star p p)"
      using suffix_in_tails [of "[]" p] by (simp add: ends_dot_star [OF dots])
    moreover have "[] \<in> set (ends Eol p [])" by (simp add: ends.simps)
    ultimately show ?thesis
      unfolding ends.simps(2) by (rule in_concat_map)
  qed
  show ?thesis
    unfolding re_fullmatch_def PASSWORD_REGEX_TEXT_def
    using l1 l2 l3 l4 l5
    by (simp add: ends.simps(2) [of Bol] ends.simps(2) [of "Look a" for a] ends.simps(5,6))
qed

section \<open>What \<open>validate_password\<close> returns\<close>

text \<open>
  On a string no library call raises, and the tests come down to a length, a membership
  test, three tallies and the match against whatever \<open>PASSWORD_REGEX\<close> is bound to. In
  the loaded module that last match succeeds whenever it is reached.
\<close>

lemmas obj_defs = bind_exn_def isinstance_str_def py_len_def obj_fullmatch_def obj_findall_cls_def
  obj_search_def

lemmas class_defs = ord_str_def is_allowed_def is_upper_def is_lower_def is_ascii_digit_def
  is_special_def

lemma validate_password_not_str:
  "\<not> isinstance_str x \<Longrightarrow> validate_password nd g x = Inr ((False, Cadena_invalida), g)"
  by (simp add: validate_password_def)

lemma validate_password_Str_any:
  "validate_password nd g (Str p) =
     Inr ((if \<not> (10 \<le> length p \<and> list_all is_allowed p) then
         (if length p < 10 then (False, Largo_o_fuera_del_conjunto)
          else (False, Fuera_del_conjunto))
       else if length (filter is_upper p) < 3 then (False, Faltan_mayusculas)
       else if length (filter is_ascii_digit p) < 3 then (False, Faltan_digitos)
       else if \<not> list_ex is_special p then (False, Falta_especial)
       else if re_fullmatch (PASSWORD_REGEX g) p then (True, OK)
       else (False, No_cumple)),
      g)"
proof (cases "10 \<le> length p \<and> list_all is_allowed p")
  case False
  then show ?thesis
    by (simp add: validate_password_def obj_defs fullmatch_AtLeast_Cls)
next
  case True
  then have cs: "list_all is_allowed p" by simp
  have dg: "filter (re_digit nd) p = filter is_ascii_digit p"
    using cs by (rule filter_digit_allowed)
  show ?thesis
    using True
    by (simp add: validate_password_def obj_defs fullmatch_AtLeast_Cls re_findall_cls_def dg
        search_Cls)
qed

lemma validate_password_Str:
  "validate_password nd (module_globals nd) (Str p) =
     Inr ((if \<not> (10 \<le> length p \<and> list_all is_allowed p) then
         (if length p < 10 then (False, Largo_o_fuera_del_conjunto)
          else (False, Fuera_del_conjunto))
       else if length (filter is_upper p) < 3 then (False, Faltan_mayusculas)
       else if length (filter is_ascii_digit p) < 3 then (False, Faltan_digitos)
       else if \<not> list_ex is_special p then (False, Falta_especial)
       else (True, OK)),
      module_globals nd)"
proof (cases "10 \<le> length p \<and> list_all is_allowed p \<and> 3 \<le> length (filter is_upper p) \<and>
    3 \<le> length (filter is_ascii_digit p) \<and> list_ex is_special p")
  case False
  then show ?thesis
    by (auto simp: validate_password_Str_any)
next
  case all: True
  then have "filter (re_digit nd) p = filter is_ascii_digit p"
    by (simp add: filter_digit_allowed)
  with all have "re_fullmatch (PASSWORD_REGEX_TEXT nd) p"
    using fullmatch_PASSWORD_REGEX [of p nd] by simp
  then show ?thesis
    using all by (simp add: validate_password_Str_any module_globals_def)
qed

lemma validate_password_charset:
  "\<not> (10 \<le> length p \<and> list_all is_allowed p) \<Longrightarrow>
     validate_password nd g (Str p) =
       Inr ((False, if length p < 10 then Largo_o_fuera_del_conjunto else Fuera_del_conjunto), g)"
  by (simp add: validate_password_Str_any)

lemma validate_password_Inr: "\<exists>v m. validate_password nd g x = Inr ((v, m), g)"
proof (cases x)
  case (Str p)
  then show ?thesis by (simp add: validate_password_Str_any)
qed (auto simp: validate_password_not_str isinstance_str_def)


lemma special_count: "Suc 0 \<le> length (filter P p) \<longleftrightarrow> list_ex P p"
  by (induction p) simp_all

section \<open>Facts about \<open>parse_line\<close> and the loop of \<open>load_and_validate\<close>\<close>

lemma dropWhile_snoc: "\<not> P c \<Longrightarrow> dropWhile P (xs @ [c]) = dropWhile P xs @ [c]"
  by (induction xs) simp_all

lemma strip_hash: "list_all is_space ws \<Longrightarrow> \<exists>t. strip (ws @ 35 # w) = 35 # t"
proof -
  assume ws: "list_all is_space ws"
  have ns: "\<not> is_space 35" by (simp add: is_space_def)
  have "dropWhile is_space (ws @ 35 # w) = 35 # w"
    using ws ns by (simp add: dropWhile_append list_all_iff)
  then have "strip (ws @ 35 # w) = rev (dropWhile is_space (rev w @ [35]))"
    by (simp add: strip_def)
  also have "\<dots> = 35 # rev (dropWhile is_space (rev w))"
    using ns by (simp add: dropWhile_snoc)
  finally show ?thesis by blast
qed

lemma split1_first:
  "sep \<notin> set k \<Longrightarrow> split1 sep (k @ sep # v) = [k, v]"
  by (simp add: split1_def takeWhile_append dropWhile_append)

lemma parse_line_skip:
  "strip l = [] \<or> startswith (strip l) (ord_str ''#'') \<Longrightarrow> parse_line l = Inr None"
  by (auto simp: parse_line_def)

lemma load_loop_skip:
  "parse_line l = Inr None \<Longrightarrow> load_loop nd g i (l # f) out = load_loop nd g (i + 1) f out"
  by (simp add: bind_exn_def)

lemma load_loop_keep:
  "parse_line l = Inr (Some p) \<Longrightarrow> validate_password nd g (Str p) = Inr ((v, m), g') \<Longrightarrow>
     load_loop nd g i (l # f) out =
       load_loop nd g' (i + 1) f (out @ [\<lparr>line_no = i, password = p, valid = v, message = m\<rparr>])"
  by (simp add: bind_exn_def)

section \<open>The claims\<close>

text \<open>
  C1. For every string \<open>p\<close>, \<open>validate_password(p)\<close> returns a verdict, and it returns
  \<open>valid == True\<close> if and only if \<open>len(p) >= 10\<close>, every character of \<open>p\<close> is an ASCII
  letter, an ASCII digit or one of \<open>#$%!@+=\<close>, and \<open>p\<close> has at least 3 uppercase ASCII
  letters, at least 3 ASCII digits and at least 1 character of the special set.
\<close>

theorem validate_password_valid_iff:
  "(\<exists>v m. validate_password nd (module_globals nd) (Str p) = Inr ((v, m), module_globals nd)) \<and>
   ((\<exists>m. validate_password nd (module_globals nd) (Str p) = Inr ((True, m), module_globals nd)) \<longleftrightarrow>
     10 \<le> length p \<and> (\<forall>c \<in> set p. is_allowed c) \<and>
     3 \<le> length (filter is_upper p) \<and>
     3 \<le> length (filter is_ascii_digit p) \<and>
     1 \<le> length (filter is_special p))"
  by (auto simp: validate_password_Str special_count list_all_iff)

theorem validate_password_valid_iff_witness:
  "(\<exists>m. validate_password (\<lambda>c. 1632 \<le> c \<and> c \<le> 1641)
       (module_globals (\<lambda>c. 1632 \<le> c \<and> c \<le> 1641)) (Str (ord_str ''AAA111###X'')) =
       Inr ((True, m), module_globals (\<lambda>c. 1632 \<le> c \<and> c \<le> 1641))) \<and>
   \<not> (\<exists>m. validate_password (\<lambda>c. 1632 \<le> c \<and> c \<le> 1641)
       (module_globals (\<lambda>c. 1632 \<le> c \<and> c \<le> 1641)) (Str (ord_str ''AAA11####x'')) =
       Inr ((True, m), module_globals (\<lambda>c. 1632 \<le> c \<and> c \<le> 1641)))"
proof
  have "10 \<le> length (ord_str ''AAA111###X'') \<and>
    (\<forall>c \<in> set (ord_str ''AAA111###X''). is_allowed c) \<and>
    3 \<le> length (filter is_upper (ord_str ''AAA111###X'')) \<and>
    3 \<le> length (filter is_ascii_digit (ord_str ''AAA111###X'')) \<and>
    1 \<le> length (filter is_special (ord_str ''AAA111###X''))"
    by (simp add: class_defs)
  then show "\<exists>m. validate_password (\<lambda>c. 1632 \<le> c \<and> c \<le> 1641)
       (module_globals (\<lambda>c. 1632 \<le> c \<and> c \<le> 1641)) (Str (ord_str ''AAA111###X'')) =
       Inr ((True, m), module_globals (\<lambda>c. 1632 \<le> c \<and> c \<le> 1641))"
    using validate_password_valid_iff [of "\<lambda>c. 1632 \<le> c \<and> c \<le> 1641" "ord_str ''AAA111###X''"]
    by blast
  have "\<not> 3 \<le> length (filter is_ascii_digit (ord_str ''AAA11####x''))"
    by (simp add: class_defs)
  then show "\<not> (\<exists>m. validate_password (\<lambda>c. 1632 \<le> c \<and> c \<le> 1641)
       (module_globals (\<lambda>c. 1632 \<le> c \<and> c \<le> 1641)) (Str (ord_str ''AAA11####x'')) =
       Inr ((True, m), module_globals (\<lambda>c. 1632 \<le> c \<and> c \<le> 1641)))"
    using validate_password_valid_iff [of "\<lambda>c. 1632 \<le> c \<and> c \<le> 1641" "ord_str ''AAA11####x''"]
    by blast
qed

text \<open>
  C2. For every string \<open>p\<close> that fails the combined charset-and-length test: if
  \<open>len(p) < 10\<close> the reason is the combined message (length below 10 or a character
  outside the allowed set); if \<open>len(p) >= 10\<close> and some character of \<open>p\<close> is outside the
  allowed set the reason is the disallowed-character message. In both cases \<open>valid\<close> is
  \<open>False\<close>. This holds whatever \<open>PASSWORD_REGEX\<close> is bound to.
\<close>

theorem charset_length_reason:
  "(length p < 10 \<longrightarrow>
      validate_password nd g (Str p) = Inr ((False, Largo_o_fuera_del_conjunto), g)) \<and>
   (10 \<le> length p \<and> (\<exists>c \<in> set p. \<not> is_allowed c) \<longrightarrow>
      validate_password nd g (Str p) = Inr ((False, Fuera_del_conjunto), g))"
  by (auto simp: validate_password_charset list_all_iff)

theorem charset_length_reason_witness:
  "length (ord_str ''aaa111###'') < 10 \<and>
   validate_password (\<lambda>c. False) (module_globals (\<lambda>c. False)) (Str (ord_str ''aaa111###'')) =
     Inr ((False, Largo_o_fuera_del_conjunto), module_globals (\<lambda>c. False)) \<and>
   10 \<le> length (ord_str ''AAA111###X a'') \<and>
   (\<exists>c \<in> set (ord_str ''AAA111###X a''). \<not> is_allowed c) \<and>
   validate_password (\<lambda>c. False) (module_globals (\<lambda>c. False)) (Str (ord_str ''AAA111###X a'')) =
     Inr ((False, Fuera_del_conjunto), module_globals (\<lambda>c. False))"
  using charset_length_reason [of "ord_str ''aaa111###''" "\<lambda>c. False" "module_globals (\<lambda>c. False)"]
    charset_length_reason [of "ord_str ''AAA111###X a''" "\<lambda>c. False" "module_globals (\<lambda>c. False)"]
  by (simp add: class_defs)

text \<open>
  C3. The tests run in the order charset and length, uppercase count, digit count,
  special character, and the reason returned is that of the first test that fails. In
  particular a string that passes the charset-and-length test with fewer than 3 uppercase
  letters and fewer than 3 digits gets the uppercase reason, never the digit reason.
\<close>

theorem first_failing_check_wins:
  "(\<not> (10 \<le> length p \<and> (\<forall>c \<in> set p. is_allowed c)) \<longrightarrow>
      (\<exists>m. validate_password nd (module_globals nd) (Str p) = Inr ((False, m), module_globals nd) \<and>
         m \<in> {Largo_o_fuera_del_conjunto, Fuera_del_conjunto})) \<and>
   (10 \<le> length p \<and> (\<forall>c \<in> set p. is_allowed c) \<longrightarrow>
      (length (filter is_upper p) < 3 \<longrightarrow>
         validate_password nd (module_globals nd) (Str p) =
           Inr ((False, Faltan_mayusculas), module_globals nd)) \<and>
      (3 \<le> length (filter is_upper p) \<and> length (filter is_ascii_digit p) < 3 \<longrightarrow>
         validate_password nd (module_globals nd) (Str p) =
           Inr ((False, Faltan_digitos), module_globals nd)) \<and>
      (3 \<le> length (filter is_upper p) \<and> 3 \<le> length (filter is_ascii_digit p) \<and>
       length (filter is_special p) < 1 \<longrightarrow>
         validate_password nd (module_globals nd) (Str p) =
           Inr ((False, Falta_especial), module_globals nd)) \<and>
      (length (filter is_upper p) < 3 \<and> length (filter is_ascii_digit p) < 3 \<longrightarrow>
         validate_password nd (module_globals nd) (Str p) =
           Inr ((False, Faltan_mayusculas), module_globals nd) \<and>
         \<not> (\<exists>v g'. validate_password nd (module_globals nd) (Str p) =
           Inr ((v, Faltan_digitos), g'))))"
  by (auto simp: validate_password_Str list_all_iff special_count [symmetric])

theorem first_failing_check_wins_witness:
  "(\<not> (10 \<le> length (ord_str ''aaa111###'') \<and> list_all is_allowed (ord_str ''aaa111###'')) \<and>
      (\<exists>m. validate_password (\<lambda>c. False) (module_globals (\<lambda>c. False)) (Str (ord_str ''aaa111###'')) =
         Inr ((False, m), module_globals (\<lambda>c. False)) \<and>
         m \<in> {Largo_o_fuera_del_conjunto, Fuera_del_conjunto})) \<and>
   (10 \<le> length (ord_str ''aaa111###x'') \<and> list_all is_allowed (ord_str ''aaa111###x'') \<and>
      length (filter is_upper (ord_str ''aaa111###x'')) < 3 \<and>
      validate_password (\<lambda>c. False) (module_globals (\<lambda>c. False)) (Str (ord_str ''aaa111###x'')) =
        Inr ((False, Faltan_mayusculas), module_globals (\<lambda>c. False))) \<and>
   (10 \<le> length (ord_str ''AAA11####x'') \<and> list_all is_allowed (ord_str ''AAA11####x'') \<and>
      3 \<le> length (filter is_upper (ord_str ''AAA11####x'')) \<and>
      length (filter is_ascii_digit (ord_str ''AAA11####x'')) < 3 \<and>
      validate_password (\<lambda>c. False) (module_globals (\<lambda>c. False)) (Str (ord_str ''AAA11####x'')) =
        Inr ((False, Faltan_digitos), module_globals (\<lambda>c. False))) \<and>
   (10 \<le> length (ord_str ''AAA1111111'') \<and> list_all is_allowed (ord_str ''AAA1111111'') \<and>
      3 \<le> length (filter is_upper (ord_str ''AAA1111111'')) \<and>
      3 \<le> length (filter is_ascii_digit (ord_str ''AAA1111111'')) \<and>
      length (filter is_special (ord_str ''AAA1111111'')) < 1 \<and>
      validate_password (\<lambda>c. False) (module_globals (\<lambda>c. False)) (Str (ord_str ''AAA1111111'')) =
        Inr ((False, Falta_especial), module_globals (\<lambda>c. False))) \<and>
   (10 \<le> length (ord_str ''aaaaaaa###'') \<and> list_all is_allowed (ord_str ''aaaaaaa###'') \<and>
      length (filter is_upper (ord_str ''aaaaaaa###'')) < 3 \<and>
      length (filter is_ascii_digit (ord_str ''aaaaaaa###'')) < 3 \<and>
      validate_password (\<lambda>c. False) (module_globals (\<lambda>c. False)) (Str (ord_str ''aaaaaaa###'')) =
        Inr ((False, Faltan_mayusculas), module_globals (\<lambda>c. False)) \<and>
      \<not> (\<exists>v g'. validate_password (\<lambda>c. False) (module_globals (\<lambda>c. False))
        (Str (ord_str ''aaaaaaa###'')) = Inr ((v, Faltan_digitos), g')))"
proof (intro conjI)
  note a = first_failing_check_wins [of "ord_str ''aaa111###''" "\<lambda>c. False"]
  note b = first_failing_check_wins [of "ord_str ''aaa111###x''" "\<lambda>c. False"]
  note c = first_failing_check_wins [of "ord_str ''AAA11####x''" "\<lambda>c. False"]
  note d = first_failing_check_wins [of "ord_str ''AAA1111111''" "\<lambda>c. False"]
  note e = first_failing_check_wins [of "ord_str ''aaaaaaa###''" "\<lambda>c. False"]
  show "\<not> (10 \<le> length (ord_str ''aaa111###'') \<and> list_all is_allowed (ord_str ''aaa111###''))"
    by (simp add: class_defs)
  then show "\<exists>m. validate_password (\<lambda>c. False) (module_globals (\<lambda>c. False))
      (Str (ord_str ''aaa111###'')) = Inr ((False, m), module_globals (\<lambda>c. False)) \<and>
      m \<in> {Largo_o_fuera_del_conjunto, Fuera_del_conjunto}"
    using a by (simp add: list_all_iff)
  show b1: "10 \<le> length (ord_str ''aaa111###x'')" by (simp add: class_defs)
  show b2: "list_all is_allowed (ord_str ''aaa111###x'')" by (simp add: class_defs)
  show b3: "length (filter is_upper (ord_str ''aaa111###x'')) < 3" by (simp add: class_defs)
  show "validate_password (\<lambda>c. False) (module_globals (\<lambda>c. False)) (Str (ord_str ''aaa111###x'')) =
      Inr ((False, Faltan_mayusculas), module_globals (\<lambda>c. False))"
    using b b1 b2 b3 by (simp add: list_all_iff)
  show c1: "10 \<le> length (ord_str ''AAA11####x'')" by (simp add: class_defs)
  show c2: "list_all is_allowed (ord_str ''AAA11####x'')" by (simp add: class_defs)
  show c3: "3 \<le> length (filter is_upper (ord_str ''AAA11####x''))" by (simp add: class_defs)
  show c4: "length (filter is_ascii_digit (ord_str ''AAA11####x'')) < 3" by (simp add: class_defs)
  show "validate_password (\<lambda>c. False) (module_globals (\<lambda>c. False)) (Str (ord_str ''AAA11####x'')) =
      Inr ((False, Faltan_digitos), module_globals (\<lambda>c. False))"
    using c c1 c2 c3 c4 by (simp add: list_all_iff)
  show d1: "10 \<le> length (ord_str ''AAA1111111'')" by (simp add: class_defs)
  show d2: "list_all is_allowed (ord_str ''AAA1111111'')" by (simp add: class_defs)
  show d3: "3 \<le> length (filter is_upper (ord_str ''AAA1111111''))" by (simp add: class_defs)
  show d4: "3 \<le> length (filter is_ascii_digit (ord_str ''AAA1111111''))" by (simp add: class_defs)
  show d5: "length (filter is_special (ord_str ''AAA1111111'')) < 1" by (simp add: class_defs)
  show "validate_password (\<lambda>c. False) (module_globals (\<lambda>c. False)) (Str (ord_str ''AAA1111111'')) =
      Inr ((False, Falta_especial), module_globals (\<lambda>c. False))"
    using d d1 d2 d3 d4 d5 by (simp add: list_all_iff)
  show e1: "10 \<le> length (ord_str ''aaaaaaa###'')" by (simp add: class_defs)
  show e2: "list_all is_allowed (ord_str ''aaaaaaa###'')" by (simp add: class_defs)
  show e3: "length (filter is_upper (ord_str ''aaaaaaa###'')) < 3" by (simp add: class_defs)
  show e4: "length (filter is_ascii_digit (ord_str ''aaaaaaa###'')) < 3" by (simp add: class_defs)
  show "validate_password (\<lambda>c. False) (module_globals (\<lambda>c. False)) (Str (ord_str ''aaaaaaa###'')) =
      Inr ((False, Faltan_mayusculas), module_globals (\<lambda>c. False))"
    using e e1 e2 e3 e4 by (simp add: list_all_iff)
  show "\<not> (\<exists>v g'. validate_password (\<lambda>c. False) (module_globals (\<lambda>c. False))
      (Str (ord_str ''aaaaaaa###'')) = Inr ((v, Faltan_digitos), g'))"
    using e e1 e2 e3 e4 by (simp add: list_all_iff)
qed

text \<open>
  C4. The branch of the composite policy is unreachable: every string that passes the
  four individual tests of \<open>validate_password\<close> is matched in full by \<open>PASSWORD_REGEX\<close>,
  so in the loaded module \<open>validate_password\<close> never returns the reason \<open>No_cumple\<close>.
\<close>

theorem composite_branch_unreachable:
  "(re_fullmatch (AtLeast 10 (Cls is_allowed)) p \<and>
    3 \<le> length (re_findall_cls is_upper p) \<and>
    3 \<le> length (re_findall_cls (re_digit nd) p) \<and>
    re_search (Cls is_special) p \<longrightarrow>
      re_fullmatch (PASSWORD_REGEX (module_globals nd)) p) \<and>
   (\<exists>v m. validate_password nd (module_globals nd) (Str p) = Inr ((v, m), module_globals nd) \<and>
      m \<noteq> No_cumple)"
proof -
  have "re_fullmatch (PASSWORD_REGEX (module_globals nd)) p"
    if "re_fullmatch (AtLeast 10 (Cls is_allowed)) p"
      and "3 \<le> length (re_findall_cls is_upper p)"
      and "3 \<le> length (re_findall_cls (re_digit nd) p)"
      and "re_search (Cls is_special) p"
    using that fullmatch_PASSWORD_REGEX [of p nd]
    by (simp add: fullmatch_AtLeast_Cls re_findall_cls_def search_Cls module_globals_def)
  moreover have "\<exists>v m. validate_password nd (module_globals nd) (Str p) =
      Inr ((v, m), module_globals nd) \<and> m \<noteq> No_cumple"
    by (auto simp: validate_password_Str)
  ultimately show ?thesis by blast
qed

theorem composite_branch_unreachable_witness:
  "re_fullmatch (AtLeast 10 (Cls is_allowed)) (ord_str ''AAA111###X'') \<and>
   3 \<le> length (re_findall_cls is_upper (ord_str ''AAA111###X'')) \<and>
   3 \<le> length (re_findall_cls (re_digit (\<lambda>c. False)) (ord_str ''AAA111###X'')) \<and>
   re_search (Cls is_special) (ord_str ''AAA111###X'') \<and>
   re_fullmatch (PASSWORD_REGEX (module_globals (\<lambda>c. False))) (ord_str ''AAA111###X'') \<and>
   (\<exists>v m. validate_password (\<lambda>c. False) (module_globals (\<lambda>c. False))
     (Str (ord_str ''AAA111###X'')) = Inr ((v, m), module_globals (\<lambda>c. False)) \<and> m \<noteq> No_cumple)"
proof -
  have h: "re_fullmatch (AtLeast 10 (Cls is_allowed)) (ord_str ''AAA111###X'') \<and>
    3 \<le> length (re_findall_cls is_upper (ord_str ''AAA111###X'')) \<and>
    3 \<le> length (re_findall_cls (re_digit (\<lambda>c. False)) (ord_str ''AAA111###X'')) \<and>
    re_search (Cls is_special) (ord_str ''AAA111###X'')"
    by (simp add: fullmatch_AtLeast_Cls re_findall_cls_def search_Cls re_digit_def class_defs)
  then show ?thesis
    using composite_branch_unreachable [of "ord_str ''AAA111###X''" "\<lambda>c. False"] by blast
qed

text \<open>
  C5. For every string, \<open>valid\<close> is \<open>True\<close> exactly when the reason is \<open>OK\<close>, and when
  \<open>valid\<close> is \<open>False\<close> the reason is a charset or length violation (one of its two
  messages), too few uppercase letters, too few digits or a missing special character.
\<close>

theorem verdict_invariant:
  "\<exists>v m. validate_password nd (module_globals nd) (Str p) = Inr ((v, m), module_globals nd) \<and>
     (v \<longleftrightarrow> m = OK) \<and>
     (\<not> v \<longrightarrow> m \<in> {Largo_o_fuera_del_conjunto, Fuera_del_conjunto, Faltan_mayusculas,
        Faltan_digitos, Falta_especial})"
  by (simp add: validate_password_Str)

theorem verdict_invariant_witness:
  "\<exists>m. validate_password (\<lambda>c. False) (module_globals (\<lambda>c. False)) (Str (ord_str ''aaa111###x'')) =
       Inr ((False, m), module_globals (\<lambda>c. False)) \<and>
     m \<noteq> OK \<and>
     m \<in> {Largo_o_fuera_del_conjunto, Fuera_del_conjunto, Faltan_mayusculas, Faltan_digitos,
         Falta_especial}"
proof -
  from verdict_invariant [of "\<lambda>c. False" "ord_str ''aaa111###x''"]
  obtain v m where
    r: "validate_password (\<lambda>c. False) (module_globals (\<lambda>c. False)) (Str (ord_str ''aaa111###x'')) =
       Inr ((v, m), module_globals (\<lambda>c. False))"
    and ok: "v \<longleftrightarrow> m = OK"
    and bad: "\<not> v \<longrightarrow> m \<in> {Largo_o_fuera_del_conjunto, Fuera_del_conjunto, Faltan_mayusculas,
        Faltan_digitos, Falta_especial}"
    by blast
  have "validate_password (\<lambda>c. False) (module_globals (\<lambda>c. False)) (Str (ord_str ''aaa111###x'')) =
       Inr ((False, Faltan_mayusculas), module_globals (\<lambda>c. False))"
    by (simp add: validate_password_Str class_defs)
  with r have "\<not> v" by simp
  with r ok bad show ?thesis by auto
qed

text \<open>
  C6. \<open>validate_password\<close> raises no exception: on every string, the empty one included,
  and on every other object, no library call it makes raises, and it returns a verdict
  with the globals as they were. On the empty string the verdict is \<open>False\<close> with the
  combined length-or-charset reason.
\<close>

theorem validate_password_never_raises:
  "(\<exists>v m. validate_password nd g (Str p) = Inr ((v, m), g)) \<and>
   (\<exists>v m. validate_password nd g x = Inr ((v, m), g)) \<and>
   validate_password nd g (Str []) = Inr ((False, Largo_o_fuera_del_conjunto), g)"
  using validate_password_Inr [of nd g "Str p"] validate_password_Inr [of nd g x]
  by (simp add: validate_password_charset)

theorem validate_password_never_raises_witness:
  "(\<exists>v m. validate_password (\<lambda>c. False) (module_globals (\<lambda>c. False)) (Str (ord_str ''AAA111###X'')) =
      Inr ((v, m), module_globals (\<lambda>c. False))) \<and>
   (\<exists>v m. validate_password (\<lambda>c. False) (module_globals (\<lambda>c. False)) (PyBytes [65, 66]) =
      Inr ((v, m), module_globals (\<lambda>c. False))) \<and>
   validate_password (\<lambda>c. False) (module_globals (\<lambda>c. False)) (Str []) =
     Inr ((False, Largo_o_fuera_del_conjunto), module_globals (\<lambda>c. False))"
  by (rule validate_password_never_raises)

text \<open>
  C7. A string with at least one character beyond ASCII is rejected by the
  charset-and-length test, with the combined message when it is shorter than 10 and the
  disallowed-character message otherwise, whatever the Unicode database says about the
  character (a non-ASCII digit included).
\<close>

theorem non_ascii_rejected:
  "\<exists>c \<in> set p. 128 \<le> c \<Longrightarrow>
     validate_password nd g (Str p) =
       Inr ((False, if length p < 10 then Largo_o_fuera_del_conjunto else Fuera_del_conjunto), g)"
proof -
  assume "\<exists>c \<in> set p. 128 \<le> c"
  then obtain c where "c \<in> set p" "\<not> c < 128" by auto
  then have "\<not> list_all is_allowed p"
    using allowed_lt_128 by (auto simp: list_all_iff)
  then show ?thesis by (simp add: validate_password_charset)
qed

theorem non_ascii_rejected_witness:
  "(\<exists>c \<in> set (ord_str ''AAA###abcd'' @ [1633, 1634, 1635]). 128 \<le> c) \<and>
   validate_password (\<lambda>c. 1632 \<le> c \<and> c \<le> 1641) (module_globals (\<lambda>c. 1632 \<le> c \<and> c \<le> 1641))
     (Str (ord_str ''AAA###abcd'' @ [1633, 1634, 1635])) =
     Inr ((False, Fuera_del_conjunto), module_globals (\<lambda>c. 1632 \<le> c \<and> c \<le> 1641))"
proof -
  have h: "\<exists>c \<in> set (ord_str ''AAA###abcd'' @ [1633, 1634, 1635]). 128 \<le> c"
    by (simp add: ord_str_def)
  show ?thesis
    using h non_ascii_rejected [OF h, of "\<lambda>c. 1632 \<le> c \<and> c \<le> 1641"
        "module_globals (\<lambda>c. 1632 \<le> c \<and> c \<le> 1641)"]
    by (simp add: ord_str_def)
qed




text \<open>
  C10. \<open>parse_line\<close> returns \<open>None\<close> for a line that is empty once stripped or whose
  stripped form begins with \<open>#\<close>, and the loop of \<open>load_and_validate\<close> passes over such
  a line: no call of the validator, no \<open>Result\<close>. So a line that is a bare password
  beginning with \<open>#\<close>, after any leading whitespace, is skipped as a comment. A line that
  is not skipped and contains \<open>:\<close> yields the stripped text after its first \<open>:\<close>, and
  whatever string \<open>parse_line\<close> yields is validated and recorded, also when it begins
  with \<open>#\<close>.
\<close>

theorem parse_line_skips_and_splits:
  "(strip l = [] \<or> startswith (strip l) (ord_str ''#'') \<longrightarrow>
      parse_line l = Inr None \<and>
      load_loop nd g i (l # f) out = load_loop nd g (i + 1) f out) \<and>
   (list_all is_space ws \<longrightarrow> parse_line (ws @ ord_str ''#'' @ w) = Inr None) \<and>
   (strip l = k @ ord_str '':'' @ v \<and> 58 \<notin> set k \<and> \<not> startswith (strip l) (ord_str ''#'') \<longrightarrow>
      parse_line l = Inr (Some (strip v))) \<and>
   (parse_line l = Inr (Some p) \<and> validate_password nd g (Str p) = Inr ((b, m), g') \<longrightarrow>
      load_loop nd g i (l # f) out =
        load_loop nd g' (i + 1) f
          (out @ [\<lparr>line_no = i, password = p, valid = b, message = m\<rparr>]))"
proof (intro conjI impI)
  assume a: "strip l = [] \<or> startswith (strip l) (ord_str ''#'')"
  then show n: "parse_line l = Inr None"
    by (rule parse_line_skip)
  then show "load_loop nd g i (l # f) out = load_loop nd g (i + 1) f out"
    by (rule load_loop_skip)
next
  assume "list_all is_space ws"
  from strip_hash [OF this, of w] obtain t where "strip (ws @ 35 # w) = 35 # t" ..
  then show "parse_line (ws @ ord_str ''#'' @ w) = Inr None"
    by (simp add: parse_line_def startswith_def ord_str_def)
next
  assume a: "strip l = k @ ord_str '':'' @ v \<and> 58 \<notin> set k \<and>
    \<not> startswith (strip l) (ord_str ''#'')"
  then have eq: "strip l = k @ 58 # v" and nk: "58 \<notin> set k"
    by (simp_all add: ord_str_def)
  from a have nh: "\<not> startswith (k @ 58 # v) (ord_str ''#'')"
    unfolding eq by simp
  show "parse_line l = Inr (Some (strip v))"
    using nh by (simp add: parse_line_def eq split1_first [OF nk])
next
  assume "parse_line l = Inr (Some p) \<and> validate_password nd g (Str p) = Inr ((b, m), g')"
  then have "parse_line l = Inr (Some p)" and "validate_password nd g (Str p) = Inr ((b, m), g')"
    by blast+
  then show "load_loop nd g i (l # f) out =
      load_loop nd g' (i + 1) f (out @ [\<lparr>line_no = i, password = p, valid = b, message = m\<rparr>])"
    by (rule load_loop_keep)
qed

theorem parse_line_skips_and_splits_witness:
  "(strip (ord_str ''   '' @ [10]) = [] \<or>
      startswith (strip (ord_str ''   '' @ [10])) (ord_str ''#'')) \<and>
   parse_line (ord_str ''   '' @ [10]) = Inr None \<and>
   load_loop (\<lambda>c. False) (module_globals (\<lambda>c. False)) 1 [ord_str ''   '' @ [10]] [] =
     Inr ([], module_globals (\<lambda>c. False)) \<and>
   list_all is_space (ord_str '' '') \<and>
   parse_line (ord_str '' '' @ ord_str ''#'' @ ord_str ''AAA111bbbb'' @ [10]) = Inr None \<and>
   strip (ord_str ''PASSWORD: a:b '' @ [10]) = ord_str ''PASSWORD'' @ ord_str '':'' @ ord_str '' a:b'' \<and>
   58 \<notin> set (ord_str ''PASSWORD'') \<and>
   \<not> startswith (strip (ord_str ''PASSWORD: a:b '' @ [10])) (ord_str ''#'') \<and>
   parse_line (ord_str ''PASSWORD: a:b '' @ [10]) = Inr (Some (ord_str ''a:b'')) \<and>
   validate_password (\<lambda>c. False) (module_globals (\<lambda>c. False)) (Str (ord_str ''a:b'')) =
     Inr ((False, Largo_o_fuera_del_conjunto), module_globals (\<lambda>c. False)) \<and>
   load_loop (\<lambda>c. False) (module_globals (\<lambda>c. False)) 1 [ord_str ''PASSWORD: a:b '' @ [10]] [] =
     Inr ([\<lparr>line_no = 1, password = ord_str ''a:b'', valid = False,
            message = Largo_o_fuera_del_conjunto\<rparr>], module_globals (\<lambda>c. False))"
proof -
  note s = parse_line_skips_and_splits [of "ord_str ''   '' @ [10]" "\<lambda>c. False"
      "module_globals (\<lambda>c. False)" 1 "[]" "[]" "ord_str '' ''" "ord_str ''AAA111bbbb'' @ [10]"
      "[]" "[]" "[]" False OK "module_globals (\<lambda>c. False)"]
  note t = parse_line_skips_and_splits [of "ord_str ''PASSWORD: a:b '' @ [10]" "\<lambda>c. False"
      "module_globals (\<lambda>c. False)" 1 "[]" "[]" "[]" "[]"
      "ord_str ''PASSWORD''" "ord_str '' a:b''" "ord_str ''a:b''" False Largo_o_fuera_del_conjunto
      "module_globals (\<lambda>c. False)"]
  have v: "validate_password (\<lambda>c. False) (module_globals (\<lambda>c. False)) (Str (ord_str ''a:b'')) =
     Inr ((False, Largo_o_fuera_del_conjunto), module_globals (\<lambda>c. False))"
    by (simp add: validate_password_charset ord_str_def)
  have e: "strip (ord_str ''   '' @ [10]) = []"
    by (simp add: ord_str_def strip_def is_space_def)
  have k: "strip (ord_str ''PASSWORD: a:b '' @ [10]) =
      ord_str ''PASSWORD'' @ ord_str '':'' @ ord_str '' a:b''"
    by (simp add: ord_str_def strip_def is_space_def)
  have k2: "58 \<notin> set (ord_str ''PASSWORD'')" by (simp add: ord_str_def)
  have k3: "\<not> startswith (strip (ord_str ''PASSWORD: a:b '' @ [10])) (ord_str ''#'')"
    unfolding k by (simp add: ord_str_def startswith_def)
  have sv: "strip (ord_str '' a:b'') = ord_str ''a:b''"
    by (simp add: ord_str_def strip_def is_space_def)
  have sp: "list_all is_space (ord_str '' '')" by (simp add: ord_str_def is_space_def)
  from s e have s1: "parse_line (ord_str ''   '' @ [10]) = Inr None"
    and s2: "load_loop (\<lambda>c. False) (module_globals (\<lambda>c. False)) 1 [ord_str ''   '' @ [10]] [] =
      load_loop (\<lambda>c. False) (module_globals (\<lambda>c. False)) (1 + 1) [] []"
    by blast+
  from s sp have s3: "parse_line (ord_str '' '' @ ord_str ''#'' @ ord_str ''AAA111bbbb'' @ [10]) =
      Inr None"
    by blast
  from t k k2 k3 have t1: "parse_line (ord_str ''PASSWORD: a:b '' @ [10]) =
      Inr (Some (strip (ord_str '' a:b'')))"
    by blast
  then have t1': "parse_line (ord_str ''PASSWORD: a:b '' @ [10]) = Inr (Some (ord_str ''a:b''))"
    by (simp only: sv)
  from t t1' v have t2: "load_loop (\<lambda>c. False) (module_globals (\<lambda>c. False)) 1
      [ord_str ''PASSWORD: a:b '' @ [10]] [] =
      load_loop (\<lambda>c. False) (module_globals (\<lambda>c. False)) (1 + 1) []
        ([] @ [\<lparr>line_no = 1, password = ord_str ''a:b'', valid = False,
                message = Largo_o_fuera_del_conjunto\<rparr>])"
    by blast
  show ?thesis
    using e s1 s2 sp s3 k k2 k3 t1' v t2 by simp
qed

text \<open>
  A password that begins with \<open>#\<close> is not always taken for a comment: in the line
  \<open>PASSWORD: #AAA111bbbb\<close> the stripped line begins with \<open>P\<close>, so \<open>parse_line\<close> yields
  \<open>#AAA111bbbb\<close>, and \<open>load_and_validate\<close> validates it and records it as valid.
\<close>

theorem keyed_hash_password_is_validated:
  "startswith (ord_str ''#AAA111bbbb'') (ord_str ''#'') \<and>
   parse_line (ord_str ''PASSWORD: #AAA111bbbb'' @ [10]) = Inr (Some (ord_str ''#AAA111bbbb'')) \<and>
   load_and_validate (\<lambda>c. False) (module_globals (\<lambda>c. False))
     [ord_str ''PASSWORD: #AAA111bbbb'' @ [10]] =
     Inr ([\<lparr>line_no = 1, password = ord_str ''#AAA111bbbb'', valid = True, message = OK\<rparr>],
          module_globals (\<lambda>c. False))"
proof (intro conjI)
  show "startswith (ord_str ''#AAA111bbbb'') (ord_str ''#'')"
    by (simp add: startswith_def ord_str_def)
  show p: "parse_line (ord_str ''PASSWORD: #AAA111bbbb'' @ [10]) =
      Inr (Some (ord_str ''#AAA111bbbb''))"
    by (simp add: parse_line_def strip_def split1_def startswith_def is_space_def ord_str_def)
  have v: "validate_password (\<lambda>c. False) (module_globals (\<lambda>c. False))
      (Str (ord_str ''#AAA111bbbb'')) = Inr ((True, OK), module_globals (\<lambda>c. False))"
    by (simp add: validate_password_Str class_defs)
  show "load_and_validate (\<lambda>c. False) (module_globals (\<lambda>c. False))
     [ord_str ''PASSWORD: #AAA111bbbb'' @ [10]] =
     Inr ([\<lparr>line_no = 1, password = ord_str ''#AAA111bbbb'', valid = True, message = OK\<rparr>],
          module_globals (\<lambda>c. False))"
    unfolding load_and_validate_def load_loop_keep [OF p v] by simp
qed

end
